theory Spec2Isabelle
  imports Main
begin

section \<open>CatalogFormatter: the trigger badge and the schedule phrase\<close>

text \<open>
  The two functions of the function-list component, \<^verbatim>\<open>getBadgeClass\<close> and
  \<^verbatim>\<open>formatCronSchedule\<close>. A JavaScript string is modelled as a \<^typ>\<open>string\<close>, one
  \<^typ>\<open>char\<close> per code unit, which covers the strings whose code units are below 256;
  every string operation the source uses (comparison with a literal, \<^verbatim>\<open>split\<close>,
  \<^verbatim>\<open>startsWith\<close>, \<^verbatim>\<open>substring\<close>, \<^verbatim>\<open>padStart\<close>, the digit pattern) works code unit
  by code unit.
\<close>

subsection \<open>String primitives of the language\<close>

text \<open>
  \<^verbatim>\<open>s.split(sep)\<close> for a separator of one character: every occurrence of the separator
  ends a part, so neighbouring separators give empty parts and the empty string gives one
  empty part. \<open>split_from\<close> is the scan, with the part read so far.
\<close>

fun split_from :: "char \<Rightarrow> string \<Rightarrow> string \<Rightarrow> string list" where
  "split_from sep cur [] = [cur]"
| "split_from sep cur (c # cs) =
     (if c = sep then cur # split_from sep [] cs else split_from sep (cur @ [c]) cs)"

definition split_str :: "char \<Rightarrow> string \<Rightarrow> string list" where
  "split_str sep s = split_from sep [] s"

text \<open>\<^verbatim>\<open>s.startsWith(p)\<close>, \<^verbatim>\<open>s.substring(n)\<close> and \<^verbatim>\<open>s.padStart(n, c)\<close> for a pad of
  one character.\<close>

definition startsWith :: "string \<Rightarrow> string \<Rightarrow> bool" where
  "startsWith s p = (take (length p) s = p)"

definition substring :: "string \<Rightarrow> nat \<Rightarrow> string" where
  "substring s n = drop n s"

definition padStart :: "string \<Rightarrow> nat \<Rightarrow> char \<Rightarrow> string" where
  "padStart s n c = replicate (n - length s) c @ s"

text \<open>The pattern \<^verbatim>\<open>/^\d+$/\<close>: one or more of the ten ASCII digits and nothing else.\<close>

definition is_digit :: "char \<Rightarrow> bool" where
  "is_digit c = (c \<in> set ''0123456789'')"

definition match_digits :: "string \<Rightarrow> bool" where
  "match_digits s = (s \<noteq> [] \<and> list_all is_digit s)"

subsection \<open>Numbers\<close>

text \<open>
  \<^verbatim>\<open>parseInt\<close> returns a Number, a double. The source applies it to strings of digits
  only, so the Numbers that arise are the non-negative integers a double holds and
  positive infinity; \<^verbatim>\<open>NaN\<close> arises as the remainder of infinity.

  \<open>decimal_value\<close> is the integer the digits denote. \<open>to_number\<close> is the Number for it:
  an integer below \<open>2 ^ 53\<close> is held as it is, a larger one is rounded to 53 significant
  bits, to nearest and ties to even, and one that rounds to \<open>2 ^ 1024\<close> or more is
  infinite. (For a string of more than twenty significant digits the language lets an
  implementation read the later digits as zeros; the model reads them as written.)
\<close>

datatype number = Fin nat | Infinity | NaN

definition digit_val :: "char \<Rightarrow> nat" where
  "digit_val c = of_char c - 48"

definition decimal_value :: "string \<Rightarrow> nat" where
  "decimal_value s = foldl (\<lambda>acc c. 10 * acc + digit_val c) 0 s"

fun bit_length :: "nat \<Rightarrow> nat" where
  "bit_length n = (if n = 0 then 0 else Suc (bit_length (n div 2)))"

definition round53 :: "nat \<Rightarrow> nat" where
  "round53 n =
     (if n < 2 ^ 53 then n
      else let e = bit_length n - 53;
               q = n div 2 ^ e;
               r = n mod 2 ^ e;
               up = (2 ^ e < 2 * r \<or> (2 * r = 2 ^ e \<and> odd q))
           in (if up then q + 1 else q) * 2 ^ e)"

definition to_number :: "nat \<Rightarrow> number" where
  "to_number n = (if round53 n < 2 ^ 1024 then Fin (round53 n) else Infinity)"

definition parseInt :: "string \<Rightarrow> number" where
  "parseInt s = to_number (decimal_value s)"

text \<open>\<^verbatim>\<open>x % d\<close> for a positive integer \<open>d\<close>, the truth of a Number (as \<^verbatim>\<open>||\<close> tests it)
  and \<^verbatim>\<open>x >= k\<close>.\<close>

fun remainder :: "number \<Rightarrow> nat \<Rightarrow> number" where
  "remainder (Fin n) d = (if d = 0 then NaN else Fin (n mod d))"
| "remainder Infinity d = NaN"
| "remainder NaN d = NaN"

fun truthy :: "number \<Rightarrow> bool" where
  "truthy (Fin n) = (n \<noteq> 0)"
| "truthy Infinity = True"
| "truthy NaN = False"

fun at_least :: "number \<Rightarrow> nat \<Rightarrow> bool" where
  "at_least (Fin n) k = (k \<le> n)"
| "at_least Infinity k = True"
| "at_least NaN k = False"

text \<open>The decimal text of a natural number, as a template literal renders an integer
  Number below \<open>10 ^ 21\<close>; \<^verbatim>\<open>Infinity\<close> and \<^verbatim>\<open>NaN\<close> render as their names.\<close>

fun decimal :: "nat \<Rightarrow> string" where
  "decimal n =
     (if n < 10 then [''0123456789'' ! n]
      else decimal (n div 10) @ [''0123456789'' ! (n mod 10)])"

fun number_text :: "number \<Rightarrow> string" where
  "number_text (Fin n) = decimal n"
| "number_text Infinity = ''Infinity''"
| "number_text NaN = ''NaN''"

subsection \<open>formatCronSchedule\<close>

text \<open>The seven expressions the source compares with first, each with its phrase.\<close>

definition common_patterns :: "(string \<times> string) list" where
  "common_patterns =
     [(''*/1 * * * *'', ''Every minute''),
      (''0/5 * * * *'', ''Every 5 minutes''),
      (''0/15 * * * *'', ''Every 15 minutes''),
      (''0/30 * * * *'', ''Every 30 minutes''),
      (''0 * * * *'', ''Every hour''),
      (''0 0 * * *'', ''Every day at midnight''),
      (''0 12 * * *'', ''Every day at noon'')]"

text \<open>The interval phrase and the clock phrase, the two template literals.\<close>

definition interval_phrase :: "string \<Rightarrow> string" where
  "interval_phrase interval =
     ''Every '' @ interval @ '' minute'' @ (if interval = ''1'' then '''' else ''s'')"

definition clock_phrase :: "string \<Rightarrow> string \<Rightarrow> string" where
  "clock_phrase minute hour =
     (let formattedHour =
            (if truthy (remainder (parseInt hour) 12) then remainder (parseInt hour) 12
             else Fin 12);
          ampm = (if at_least (parseInt hour) 12 then ''PM'' else ''AM'');
          formattedMinute = padStart minute 2 CHR ''0''
      in ''Every day at '' @ number_text formattedHour @ '':'' @ formattedMinute @ '' '' @ ampm)"

definition formatCronSchedule :: "string \<Rightarrow> string" where
  "formatCronSchedule cronExpression =
     (case map_of common_patterns cronExpression of
        Some phrase \<Rightarrow> phrase
      | None \<Rightarrow>
          (let parts = split_str CHR '' '' cronExpression in
           if length parts \<noteq> 5 then cronExpression
           else
             (let minute = parts ! 0; hour = parts ! 1 in
              if startsWith minute ''*/'' then interval_phrase (substring minute 2)
              else if match_digits minute \<and> match_digits hour then clock_phrase minute hour
              else cronExpression)))"

subsection \<open>getBadgeClass\<close>

text \<open>
  \<^verbatim>\<open>classes[triggerType] || 'bg-secondary'\<close> reads a property of an object literal. The
  literal has three properties of its own, and it inherits the members of
  \<^verbatim>\<open>Object.prototype\<close>: a read of one of their names finds the inherited member, a
  function (for \<^verbatim>\<open>__proto__\<close> the prototype object), which is truthy, so \<^verbatim>\<open>||\<close>
  returns it. The result is therefore a class string or an inherited member.
\<close>

datatype badge = ClassName string | PrototypeMember string

definition classes :: "(string \<times> string) list" where
  "classes =
     [(''timer'', ''bg-primary''),
      (''http'', ''bg-success''),
      (''unity_table'', ''bg-warning text-dark'')]"

definition object_prototype_names :: "string list" where
  "object_prototype_names =
     [''constructor'', ''hasOwnProperty'', ''isPrototypeOf'', ''propertyIsEnumerable'',
      ''toLocaleString'', ''toString'', ''valueOf'', ''__proto__'',
      ''__defineGetter__'', ''__defineSetter__'', ''__lookupGetter__'', ''__lookupSetter__'']"

definition getBadgeClass :: "string \<Rightarrow> badge" where
  "getBadgeClass triggerType =
     (case map_of classes triggerType of
        Some c \<Rightarrow> ClassName c
      | None \<Rightarrow>
          if triggerType \<in> set object_prototype_names then PrototypeMember triggerType
          else ClassName ''bg-secondary'')"

subsection \<open>The phrases as the specification words them\<close>

text \<open>
  Two definitions that follow the specification rather than the source, to compare the
  source with. \<open>spec_clock_phrase\<close> is the clock phrase where the hour is the number the
  hour field denotes: that number modulo 12 with 0 shown as 12, AM below 12 and PM from
  12 on, the minute padded to two digits. \<open>whitespace_fields\<close> splits a string on
  whitespace: the fields are the longest runs of characters that are not whitespace.
\<close>

definition spec_clock_phrase :: "string \<Rightarrow> string \<Rightarrow> string" where
  "spec_clock_phrase minute hour =
     (let h = decimal_value hour;
          shown = (if h mod 12 = 0 then 12 else h mod 12);
          period = (if h < 12 then ''AM'' else ''PM'')
      in ''Every day at '' @ decimal shown @ '':'' @ padStart minute 2 CHR ''0'' @ '' '' @ period)"

definition is_whitespace :: "char \<Rightarrow> bool" where
  "is_whitespace c =
     (c \<in> set [CHR '' '', CHR 0x09, CHR 0x0A, CHR 0x0B, CHR 0x0C, CHR 0x0D])"

fun fields_from :: "string \<Rightarrow> string \<Rightarrow> string list" where
  "fields_from cur [] = (if cur = [] then [] else [cur])"
| "fields_from cur (c # cs) =
     (if is_whitespace c then (if cur = [] then [] else [cur]) @ fields_from [] cs
      else fields_from (cur @ [c]) cs)"

definition whitespace_fields :: "string \<Rightarrow> string list" where
  "whitespace_fields s = fields_from [] s"

section \<open>ConnectionManager: the WebSocketService\<close>

text \<open>
  The service object has three fields: \<^verbatim>\<open>ws\<close>, \<^verbatim>\<open>messageHandlers\<close> and
  \<^verbatim>\<open>isConnecting\<close>. Around it stands the browser: the sockets the service has
  constructed, each with its \<^verbatim>\<open>readyState\<close>, the timeouts it has set, the time, and
  the calls of handlers that took place. One record holds both.

  A handler is a callback; the source compares handlers by identity
  (\<^verbatim>\<open>h !== handler\<close>), so a handler is modelled by a number that names it. A socket is
  named by its position in the list of the sockets constructed.
\<close>

datatype readyState = CONNECTING | OPEN | CLOSING | CLOSED

type_synonym handler = nat
type_synonym payload = string

record system =
  ws :: "nat option"
  messageHandlers :: "handler list"
  isConnecting :: bool
  sockets :: "readyState list"
  timers :: "nat list"
  clock :: nat
  calls :: "(handler \<times> payload) list"

text \<open>The constructor, before any socket, timeout or call; times are in milliseconds.\<close>

definition initial :: system where
  "initial =
     \<lparr>ws = None, messageHandlers = [], isConnecting = False,
      sockets = [], timers = [], clock = 0, calls = []\<rparr>"

text \<open>\<^verbatim>\<open>this.ws?.readyState\<close>: nothing while \<^verbatim>\<open>ws\<close> is null.\<close>

definition readyState_of :: "system \<Rightarrow> readyState option" where
  "readyState_of s =
     (case ws s of
        None \<Rightarrow> None
      | Some i \<Rightarrow> if i < length (sockets s) then Some (sockets s ! i) else None)"

text \<open>
  \<^verbatim>\<open>connect()\<close>. Past the guard it sets the flag and constructs a socket, which starts
  in \<^verbatim>\<open>CONNECTING\<close>; the four event handlers it installs are the same for every socket
  and are the functions \<open>onmessage\<close>, \<open>onopen\<close>, \<open>onclose\<close> and \<open>onerror\<close> below.
\<close>

definition connect :: "system \<Rightarrow> system" where
  "connect s =
     (if readyState_of s = Some OPEN \<or> readyState_of s = Some CONNECTING \<or> isConnecting s
      then s
      else s\<lparr>isConnecting := True,
             ws := Some (length (sockets s)),
             sockets := sockets s @ [CONNECTING]\<rparr>)"

text \<open>
  A handler either returns or throws. Whether a call throws is the handler's business:
  \<open>thr cs h m\<close> says that handler \<open>h\<close>, called with payload \<open>m\<close> after the calls \<open>cs\<close>,
  throws. \<^verbatim>\<open>messageHandlers.forEach(handler => handler(event.data))\<close> calls the handlers
  in the order of the array; an exception leaves \<^verbatim>\<open>forEach\<close> at once, and nothing in
  the source catches it. The handlers are taken not to call the service while a message
  is dispatched.
\<close>

type_synonym thrower = "(handler \<times> payload) list \<Rightarrow> handler \<Rightarrow> payload \<Rightarrow> bool"

fun forEach :: "thrower \<Rightarrow> handler list \<Rightarrow> payload \<Rightarrow> (handler \<times> payload) list
    \<Rightarrow> (handler \<times> payload) list" where
  "forEach thr [] m cs = cs"
| "forEach thr (h # hs) m cs =
     (if thr cs h m then cs @ [(h, m)] else forEach thr hs m (cs @ [(h, m)]))"

definition onmessage :: "thrower \<Rightarrow> payload \<Rightarrow> system \<Rightarrow> system" where
  "onmessage thr m s = s\<lparr>calls := forEach thr (messageHandlers s) m (calls s)\<rparr>"

definition onopen :: "system \<Rightarrow> system" where
  "onopen s = s\<lparr>isConnecting := False\<rparr>"

text \<open>\<^verbatim>\<open>setTimeout(() => this.connect(), 5000)\<close> is recorded by the time it falls due.\<close>

definition onclose :: "system \<Rightarrow> system" where
  "onclose s = s\<lparr>isConnecting := False, timers := timers s @ [clock s + 5000]\<rparr>"

definition onerror :: "system \<Rightarrow> system" where
  "onerror s = s\<lparr>isConnecting := False\<rparr>"

text \<open>\<^verbatim>\<open>onMessage(handler)\<close> appends the handler and returns the disposer, the closure
  that filters the handler out.\<close>

definition removeMessageHandler :: "handler \<Rightarrow> system \<Rightarrow> system" where
  "removeMessageHandler h s =
     s\<lparr>messageHandlers := filter (\<lambda>h'. h' \<noteq> h) (messageHandlers s)\<rparr>"

definition onMessage :: "handler \<Rightarrow> system \<Rightarrow> system \<times> (system \<Rightarrow> system)" where
  "onMessage h s = (s\<lparr>messageHandlers := messageHandlers s @ [h]\<rparr>, removeMessageHandler h)"

text \<open>\<^verbatim>\<open>disconnect()\<close> calls \<^verbatim>\<open>close()\<close> on the socket, if there is one: a socket that
  is connecting or open starts to close, one that is closing or closed is left as it is.\<close>

definition close_socket :: "nat \<Rightarrow> readyState list \<Rightarrow> readyState list" where
  "close_socket i socks =
     (if i < length socks \<and> (socks ! i = CONNECTING \<or> socks ! i = OPEN)
      then socks[i := CLOSING] else socks)"

definition disconnect :: "system \<Rightarrow> system" where
  "disconnect s =
     (case ws s of
        None \<Rightarrow> s
      | Some i \<Rightarrow> s\<lparr>sockets := close_socket i (sockets s)\<rparr>)"

subsection \<open>Events\<close>

text \<open>
  What can happen to the service: a caller calls \<^verbatim>\<open>connect()\<close>, \<^verbatim>\<open>disconnect()\<close>,
  \<^verbatim>\<open>onMessage(h)\<close> or a disposer; the browser fires an event of a socket; time passes;
  a timeout that has fallen due runs. The browser fires \<^verbatim>\<open>open\<close> on a connecting socket,
  which is open from then on, \<^verbatim>\<open>message\<close> on an open socket, and \<^verbatim>\<open>close\<close> on a socket
  that is not yet closed, which is closed from then on. A connection that fails fires
  \<^verbatim>\<open>error\<close> and then \<^verbatim>\<open>close\<close>; the model lets \<^verbatim>\<open>error\<close> fire on any socket. An
  event that the browser cannot fire has no successor state. All timeouts have the same
  delay, so they fall due in the order they were set.
\<close>

datatype event =
    Connect
  | Disconnect
  | Register handler
  | Dispose handler
  | Open nat
  | Message nat payload
  | Error nat
  | Close nat
  | Elapse nat
  | Timeout

fun step :: "thrower \<Rightarrow> event \<Rightarrow> system \<Rightarrow> system option" where
  "step thr Connect s = Some (connect s)"
| "step thr Disconnect s = Some (disconnect s)"
| "step thr (Register h) s = Some (fst (onMessage h s))"
| "step thr (Dispose h) s = Some (removeMessageHandler h s)"
| "step thr (Open i) s =
     (if i < length (sockets s) \<and> sockets s ! i = CONNECTING
      then Some (onopen (s\<lparr>sockets := (sockets s)[i := OPEN]\<rparr>)) else None)"
| "step thr (Message i m) s =
     (if i < length (sockets s) \<and> sockets s ! i = OPEN
      then Some (onmessage thr m s) else None)"
| "step thr (Error i) s =
     (if i < length (sockets s) then Some (onerror s) else None)"
| "step thr (Close i) s =
     (if i < length (sockets s) \<and> sockets s ! i \<noteq> CLOSED
      then Some (onclose (s\<lparr>sockets := (sockets s)[i := CLOSED]\<rparr>)) else None)"
| "step thr (Elapse d) s = Some (s\<lparr>clock := clock s + d\<rparr>)"
| "step thr Timeout s =
     (case timers s of
        [] \<Rightarrow> None
      | t # ts \<Rightarrow> if t \<le> clock s then Some (connect (s\<lparr>timers := ts\<rparr>)) else None)"

fun run :: "thrower \<Rightarrow> event list \<Rightarrow> system \<Rightarrow> system option" where
  "run thr [] s = Some s"
| "run thr (e # es) s = (case step thr e s of None \<Rightarrow> None | Some s' \<Rightarrow> run thr es s')"

text \<open>The sockets that are connecting or open, and the messages of a stream received one
  after the other.\<close>

definition live :: "readyState list \<Rightarrow> readyState list" where
  "live socks = filter (\<lambda>r. r = CONNECTING \<or> r = OPEN) socks"

definition receive :: "thrower \<Rightarrow> payload list \<Rightarrow> system \<Rightarrow> system" where
  "receive thr ms s = foldl (\<lambda>s' m. onmessage thr m s') s ms"

text \<open>
  \<open>quiet thr cs hs m\<close>: none of the calls throws when the handlers \<open>hs\<close> are called with
  \<open>m\<close> one after the other, after the calls \<open>cs\<close>.
\<close>

fun quiet :: "thrower \<Rightarrow> (handler \<times> payload) list \<Rightarrow> handler list \<Rightarrow> payload \<Rightarrow> bool" where
  "quiet thr cs [] m = True"
| "quiet thr cs (h # hs) m = (\<not> thr cs h m \<and> quiet thr (cs @ [(h, m)]) hs m)"

text \<open>Two kinds of handlers for the examples: handlers that never throw, and handlers of
  which the one named 1 throws at every call.\<close>

definition never_throws :: thrower where
  "never_throws cs h m = False"

definition faulty :: thrower where
  "faulty cs h m = (h = 1)"

text \<open>
  The invariant of the service: \<^verbatim>\<open>ws\<close> is a socket that was constructed, and every
  other socket is closing or closed.
\<close>

definition others_closed :: "system \<Rightarrow> bool" where
  "others_closed s =
     ((\<forall>i. ws s = Some i \<longrightarrow> i < length (sockets s)) \<and>
      (\<forall>j < length (sockets s). ws s \<noteq> Some j \<longrightarrow>
          sockets s ! j = CLOSING \<or> sockets s ! j = CLOSED))"

section \<open>Properties of the CatalogFormatter\<close>

subsection \<open>Splitting and the two branches\<close>

text \<open>
  A part that holds no separator is read whole; five parts without a space, joined by
  single spaces, are what \<open>split_str\<close> gives back.
\<close>

lemma split_from_field:
  "sep \<notin> set f \<Longrightarrow> split_from sep cur (f @ sep # rest) = (cur @ f) # split_from sep [] rest"
  by (induction f arbitrary: cur) auto

lemma split_from_last: "sep \<notin> set f \<Longrightarrow> split_from sep cur f = [cur @ f]"
  by (induction f arbitrary: cur) auto

lemma split_five_fields:
  assumes "CHR '' '' \<notin> set a" "CHR '' '' \<notin> set b" "CHR '' '' \<notin> set c"
    "CHR '' '' \<notin> set d" "CHR '' '' \<notin> set e"
  shows "split_str CHR '' '' (a @ '' '' @ b @ '' '' @ c @ '' '' @ d @ '' '' @ e) = [a, b, c, d, e]"
  using assms by (simp add: split_str_def split_from_field split_from_last)

text \<open>
  Past the seven common patterns, an expression of five parts whose first part starts with
  \<^verbatim>\<open>*/\<close> gets the interval phrase, and one whose first two parts are digits gets the
  clock phrase.
\<close>

lemma not_common: "x \<notin> set (map fst common_patterns) \<Longrightarrow> map_of common_patterns x = None"
  by (simp add: map_of_eq_None_iff)

lemma format_interval_branch:
  assumes "x \<notin> set (map fst common_patterns)"
    and "length (split_str CHR '' '' x) = 5"
    and "startsWith (split_str CHR '' '' x ! 0) ''*/''"
  shows "formatCronSchedule x = interval_phrase (substring (split_str CHR '' '' x ! 0) 2)"
  using assms by (simp add: formatCronSchedule_def not_common Let_def)

lemma format_clock_branch:
  assumes "x \<notin> set (map fst common_patterns)"
    and "length (split_str CHR '' '' x) = 5"
    and "\<not> startsWith (split_str CHR '' '' x ! 0) ''*/''"
    and "match_digits (split_str CHR '' '' x ! 0)" "match_digits (split_str CHR '' '' x ! 1)"
  shows "formatCronSchedule x = clock_phrase (split_str CHR '' '' x ! 0) (split_str CHR '' '' x ! 1)"
  using assms by (simp add: formatCronSchedule_def not_common Let_def)

lemma space_not_digit: "\<not> is_digit CHR '' ''"
  by (simp add: is_digit_def)

lemma star_not_digit: "\<not> is_digit CHR ''*''"
  by (simp add: is_digit_def)

lemma digits_no_space: "match_digits s \<Longrightarrow> CHR '' '' \<notin> set s"
  unfolding match_digits_def list_all_iff using space_not_digit by blast

lemma digits_not_interval:
  assumes "match_digits s" shows "\<not> startsWith s ''*/''"
proof
  assume a: "startsWith s ''*/''"
  from assms obtain c cs where s: "s = c # cs" and c: "is_digit c"
    by (cases s) (simp_all add: match_digits_def)
  from a s have "c = CHR ''*''" by (simp add: startsWith_def)
  with c star_not_digit show False by simp
qed

text \<open>
  Below \<open>2 ^ 53\<close> a Number holds the integer, so the clock phrase of the source is the
  clock phrase of the specification.
\<close>

lemma round53_exact: "n < 2 ^ 53 \<Longrightarrow> round53 n = n"
  by (simp add: round53_def)

lemma two_pow_53_small: "(2::nat) ^ 53 < 2 ^ 1024" by simp

lemma to_number_exact: "n < 2 ^ 53 \<Longrightarrow> to_number n = Fin n"
proof -
  assume a: "n < 2 ^ 53"
  then have "n < 2 ^ 1024" using two_pow_53_small by (rule less_trans)
  then show ?thesis using a unfolding to_number_def round53_exact [OF a] by (rule_tac if_P)
qed

lemma parseInt_exact: "decimal_value s < 2 ^ 53 \<Longrightarrow> parseInt s = Fin (decimal_value s)"
  unfolding parseInt_def by (rule to_number_exact)

lemma formatted_hour_exact:
  "(if truthy (remainder (Fin h) 12) then remainder (Fin h) 12 else Fin 12)
     = Fin (if h mod 12 = 0 then 12 else h mod 12)"
  by simp

lemma ampm_exact: "at_least (Fin h) 12 = (\<not> h < 12)"
  by auto

lemma clock_phrase_exact:
  assumes "decimal_value hour < 2 ^ 53"
  shows "clock_phrase minute hour = spec_clock_phrase minute hour"
  unfolding clock_phrase_def spec_clock_phrase_def parseInt_exact [OF assms] Let_def
    formatted_hour_exact ampm_exact
  by simp

subsection \<open>The interval rule\<close>

text \<open>
  C6, as the specification states it, fails twice. The specification takes the five
  fields from splitting on whitespace: \<^verbatim>\<open>*/7\<close>, two spaces, \<^verbatim>\<open>* * * *\<close> has five
  such fields and the minute field \<^verbatim>\<open>*/7\<close>, yet the source splits on every space, finds
  six parts and returns the expression unchanged. And for \<^verbatim>\<open>*/01 * * * *\<close>, where N is
  the number 1, the source compares the text \<^verbatim>\<open>01\<close> with \<^verbatim>\<open>1\<close> and returns the plural.
\<close>

theorem interval_rule_whitespace_fields:
  "''*/7  * * * *'' \<notin> set (map fst common_patterns)
   \<and> whitespace_fields ''*/7  * * * *'' = [''*/7'', ''*'', ''*'', ''*'', ''*'']
   \<and> formatCronSchedule ''*/7  * * * *'' = ''*/7  * * * *''
   \<and> formatCronSchedule ''*/7  * * * *'' \<noteq> ''Every 7 minutes''
   \<and> ''*/01 * * * *'' \<notin> set (map fst common_patterns)
   \<and> whitespace_fields ''*/01 * * * *'' = [''*/01'', ''*'', ''*'', ''*'', ''*'']
   \<and> match_digits ''01'' \<and> decimal_value ''01'' = 1
   \<and> formatCronSchedule ''*/01 * * * *'' = ''Every 01 minutes''"
proof -
  have nc: "''*/7  * * * *'' \<notin> set (map fst common_patterns)"
    by (simp add: common_patterns_def)
  have w: "whitespace_fields ''*/7  * * * *'' = [''*/7'', ''*'', ''*'', ''*'', ''*'']"
    by (simp add: whitespace_fields_def is_whitespace_def)
  have l: "length (split_str CHR '' '' ''*/7  * * * *'') = 6"
    by (simp add: split_str_def)
  have f: "formatCronSchedule ''*/7  * * * *'' = ''*/7  * * * *''"
    using nc l by (simp add: formatCronSchedule_def not_common Let_def)
  have nc1: "''*/01 * * * *'' \<notin> set (map fst common_patterns)"
    by (simp add: common_patterns_def)
  have w1: "whitespace_fields ''*/01 * * * *'' = [''*/01'', ''*'', ''*'', ''*'', ''*'']"
    by (simp add: whitespace_fields_def is_whitespace_def)
  have d: "match_digits ''01'' \<and> decimal_value ''01'' = 1"
    by (simp add: match_digits_def is_digit_def decimal_value_def digit_val_def)
  have f1: "formatCronSchedule ''*/01 * * * *'' = ''Every 01 minutes''"
    using format_interval_branch [OF nc1]
    by (simp add: split_str_def startsWith_def interval_phrase_def substring_def)
  from nc w f nc1 w1 d f1 show ?thesis by simp
qed

text \<open>
  C6, amended. Take five fields without spaces, joined by single spaces, the minute field
  being \<^verbatim>\<open>*/\<close> followed by a text \<open>N\<close>, and the expression not one of the seven common
  patterns. Then \<open>formatCronSchedule\<close> returns "Every N minute" followed by "s" unless
  \<open>N\<close> is the text "1": the singular exactly when \<open>N\<close> is the string "1". In particular
  \<^verbatim>\<open>*/7 * * * *\<close> gives "Every 7 minutes".
\<close>

theorem interval_rule_pluralizes:
  assumes "CHR '' '' \<notin> set N" "CHR '' '' \<notin> set hour" "CHR '' '' \<notin> set dayOfMonth"
    "CHR '' '' \<notin> set month" "CHR '' '' \<notin> set dayOfWeek"
    and "x = (''*/'' @ N) @ '' '' @ hour @ '' '' @ dayOfMonth @ '' '' @ month @ '' '' @ dayOfWeek"
    and "x \<notin> set (map fst common_patterns)"
  shows "formatCronSchedule x = ''Every '' @ N @ (if N = ''1'' then '' minute'' else '' minutes'')
    \<and> formatCronSchedule ''*/7 * * * *'' = ''Every 7 minutes''"
proof -
  have general: "formatCronSchedule y = ''Every '' @ M @ (if M = ''1'' then '' minute'' else '' minutes'')"
    if "CHR '' '' \<notin> set M" "CHR '' '' \<notin> set b" "CHR '' '' \<notin> set c"
      "CHR '' '' \<notin> set d" "CHR '' '' \<notin> set e"
      and "y = (''*/'' @ M) @ '' '' @ b @ '' '' @ c @ '' '' @ d @ '' '' @ e"
      and "y \<notin> set (map fst common_patterns)" for y M b c d e
  proof -
    have "CHR '' '' \<notin> set (''*/'' @ M)" using that(1) by simp
    then have parts: "split_str CHR '' '' y = [''*/'' @ M, b, c, d, e]"
      unfolding that(6) using that(2-5) by (rule split_five_fields)
    then have "formatCronSchedule y = interval_phrase (substring (''*/'' @ M) 2)"
      using that(7) by (simp add: format_interval_branch startsWith_def)
    then show ?thesis by (simp add: interval_phrase_def substring_def)
  qed
  have "formatCronSchedule ''*/7 * * * *'' = ''Every 7 minutes''"
    using general [of "''7''" "''*''" "''*''" "''*''" "''*''" "''*/7 * * * *''"]
    by (simp add: common_patterns_def)
  with general [OF assms] show ?thesis by simp
qed

text \<open>
  The theorem at \<^verbatim>\<open>*/1 2 * * *\<close>, the singular case.
\<close>

theorem interval_rule_pluralizes_witness:
  "formatCronSchedule ''*/1 2 * * *'' = ''Every 1 minute''"
  using interval_rule_pluralizes [of "''1''" "''2''" "''*''" "''*''" "''*''" "''*/1 2 * * *''"]
  by (simp add: common_patterns_def)

text \<open>
  C10. The text after \<^verbatim>\<open>*/\<close> is not checked to be a number. For every expression that
  is not a common pattern, has five parts and whose first part starts with \<^verbatim>\<open>*/\<close>, the
  rest of that part stands in the result as it is, and the singular is chosen when that
  rest is the string "1": \<^verbatim>\<open>*/x * * * *\<close> gives "Every x minutes" and
  \<^verbatim>\<open>*/01 * * * *\<close> gives "Every 01 minutes".
\<close>

theorem interval_suffix_verbatim:
  assumes "x \<notin> set (map fst common_patterns)"
    and "length (split_str CHR '' '' x) = 5"
    and "startsWith (split_str CHR '' '' x ! 0) ''*/''"
  shows "formatCronSchedule x =
      ''Every '' @ drop 2 (split_str CHR '' '' x ! 0) @ '' minute''
        @ (if drop 2 (split_str CHR '' '' x ! 0) = ''1'' then '''' else ''s'')
    \<and> formatCronSchedule ''*/x * * * *'' = ''Every x minutes''
    \<and> formatCronSchedule ''*/01 * * * *'' = ''Every 01 minutes''"
proof -
  have a: "formatCronSchedule ''*/x * * * *'' = ''Every x minutes''"
    by (simp add: format_interval_branch common_patterns_def split_str_def startsWith_def
        interval_phrase_def substring_def)
  have b: "formatCronSchedule ''*/01 * * * *'' = ''Every 01 minutes''"
    by (simp add: format_interval_branch common_patterns_def split_str_def startsWith_def
        interval_phrase_def substring_def)
  from format_interval_branch [OF assms] a b show ?thesis
    by (simp add: interval_phrase_def substring_def)
qed

text \<open>
  The theorem at \<^verbatim>\<open>*/every 3 * * *\<close>.
\<close>

theorem interval_suffix_verbatim_witness:
  "formatCronSchedule ''*/every 3 * * *'' = ''Every every minutes''"
  using interval_suffix_verbatim [of "''*/every 3 * * *''"]
  by (simp add: common_patterns_def split_str_def startsWith_def)

subsection \<open>The clock rule\<close>

text \<open>
  C7, as the specification states it, fails for an hour field that a Number does not
  hold: \<^verbatim>\<open>parseInt\<close> rounds 9007199254740993 to 9007199254740992, so
  \<^verbatim>\<open>0 9007199254740993 * * *\<close> is shown as 8 PM, where the hour modulo 12 is 9.
\<close>

theorem clock_hour_rounded:
  "split_str CHR '' '' ''0 9007199254740993 * * *'' = [''0'', ''9007199254740993'', ''*'', ''*'', ''*'']
   \<and> ''0 9007199254740993 * * *'' \<notin> set (map fst common_patterns)
   \<and> \<not> startsWith ''0'' ''*/''
   \<and> match_digits ''0'' \<and> match_digits ''9007199254740993''
   \<and> spec_clock_phrase ''0'' ''9007199254740993'' = ''Every day at 9:00 PM''
   \<and> formatCronSchedule ''0 9007199254740993 * * *'' = ''Every day at 8:00 PM''"
proof -
  have v: "decimal_value ''9007199254740993'' = 9007199254740993"
    by (simp add: decimal_value_def digit_val_def)
  have r: "round53 9007199254740993 = 9007199254740992"
    by (simp add: round53_def Let_def)
  have p: "parseInt ''9007199254740993'' = Fin 9007199254740992"
    by (simp add: parseInt_def to_number_def v r)
  have c: "clock_phrase ''0'' ''9007199254740993'' = ''Every day at 8:00 PM''"
    by (simp add: clock_phrase_def p padStart_def)
  have s: "spec_clock_phrase ''0'' ''9007199254740993'' = ''Every day at 9:00 PM''"
    by (simp add: spec_clock_phrase_def v padStart_def)
  have parts: "split_str CHR '' '' ''0 9007199254740993 * * *'' = [''0'', ''9007199254740993'', ''*'', ''*'', ''*'']"
    by (simp add: split_str_def)
  have nc: "''0 9007199254740993 * * *'' \<notin> set (map fst common_patterns)"
    by (simp add: common_patterns_def)
  have d: "match_digits ''0'' \<and> match_digits ''9007199254740993''"
    by (simp add: match_digits_def is_digit_def)
  have ns: "\<not> startsWith ''0'' ''*/''" by (simp add: startsWith_def)
  have "formatCronSchedule ''0 9007199254740993 * * *'' = ''Every day at 8:00 PM''"
    using format_clock_branch [OF nc] parts d ns c by simp
  with parts nc ns d s show ?thesis by simp
qed

text \<open>
  C7, amended. Take five fields joined by single spaces, the minute and the hour fields made
  of digits, the other three without spaces, the expression not one of the seven common
  patterns, and the hour below \<open>2 ^ 53\<close>. Then \<open>formatCronSchedule\<close> returns "Every day
  at H:MM AM" or "... PM": the hour modulo 12 with 0 shown as 12, AM below 12 and PM from 12
  on, the minute padded with zeros to two digits. In particular \<^verbatim>\<open>30 14 * * *\<close> gives
  "Every day at 2:30 PM".
\<close>

theorem clock_phrase_of_exact_hour:
  assumes "match_digits minute" "match_digits hour"
    and "CHR '' '' \<notin> set dayOfMonth" "CHR '' '' \<notin> set month" "CHR '' '' \<notin> set dayOfWeek"
    and "x = minute @ '' '' @ hour @ '' '' @ dayOfMonth @ '' '' @ month @ '' '' @ dayOfWeek"
    and "x \<notin> set (map fst common_patterns)"
    and "decimal_value hour < 2 ^ 53"
  shows "formatCronSchedule x = spec_clock_phrase minute hour
    \<and> formatCronSchedule ''30 14 * * *'' = ''Every day at 2:30 PM''"
proof -
  have general: "formatCronSchedule y = spec_clock_phrase m h"
    if "match_digits m" "match_digits h"
      and "CHR '' '' \<notin> set c" "CHR '' '' \<notin> set d" "CHR '' '' \<notin> set e"
      and "y = m @ '' '' @ h @ '' '' @ c @ '' '' @ d @ '' '' @ e"
      and "y \<notin> set (map fst common_patterns)"
      and "decimal_value h < 2 ^ 53" for y m h c d e
  proof -
    have parts: "split_str CHR '' '' y = [m, h, c, d, e]"
      unfolding that(6)
      using digits_no_space [OF that(1)] digits_no_space [OF that(2)] that(3-5)
      by (rule split_five_fields)
    then have "formatCronSchedule y = clock_phrase m h"
      using that(1,2,7) by (simp add: format_clock_branch digits_not_interval)
    then show ?thesis using that(8) by (simp add: clock_phrase_exact)
  qed
  have "formatCronSchedule ''30 14 * * *'' = spec_clock_phrase ''30'' ''14''"
    using general [of "''30''" "''14''" "''*''" "''*''" "''*''" "''30 14 * * *''"]
    by (simp add: common_patterns_def match_digits_def is_digit_def decimal_value_def digit_val_def)
  then have "formatCronSchedule ''30 14 * * *'' = ''Every day at 2:30 PM''"
    by (simp add: spec_clock_phrase_def decimal_value_def digit_val_def padStart_def)
  with general [OF assms] show ?thesis by simp
qed

text \<open>
  The theorem at \<^verbatim>\<open>5 0 1 * *\<close>: hour 0 is shown as 12 AM, minute 5 as 05.
\<close>

theorem clock_phrase_of_exact_hour_witness:
  "formatCronSchedule ''5 0 1 * *'' = ''Every day at 12:05 AM''"
  using clock_phrase_of_exact_hour [of "''5''" "''0''" "''1''" "''*''" "''*''" "''5 0 1 * *''"]
  by (simp add: common_patterns_def match_digits_def is_digit_def decimal_value_def
      digit_val_def spec_clock_phrase_def padStart_def)

subsection \<open>Passing the expression through\<close>

text \<open>
  C8, as the specification states it, fails where whitespace other than a space separates
  fields: with a tab between the second and the third field, splitting on whitespace
  gives six fields, yet the source splits on spaces, finds five parts and returns the
  interval phrase.
\<close>

theorem passthrough_tab_separated:
  "(''*/7 *'' @ [CHR 0x09] @ ''* * * *'') \<notin> set (map fst common_patterns)
   \<and> whitespace_fields (''*/7 *'' @ [CHR 0x09] @ ''* * * *'') = [''*/7'', ''*'', ''*'', ''*'', ''*'', ''*'']
   \<and> length (whitespace_fields (''*/7 *'' @ [CHR 0x09] @ ''* * * *'')) \<noteq> 5
   \<and> formatCronSchedule (''*/7 *'' @ [CHR 0x09] @ ''* * * *'') = ''Every 7 minutes''
   \<and> formatCronSchedule (''*/7 *'' @ [CHR 0x09] @ ''* * * *'') \<noteq> ''*/7 *'' @ [CHR 0x09] @ ''* * * *''"
proof -
  have nc: "(''*/7 *'' @ [CHR 0x09] @ ''* * * *'') \<notin> set (map fst common_patterns)"
    by (simp add: common_patterns_def)
  have w: "whitespace_fields (''*/7 *'' @ [CHR 0x09] @ ''* * * *'') = [''*/7'', ''*'', ''*'', ''*'', ''*'', ''*'']"
    by (simp add: whitespace_fields_def is_whitespace_def)
  have parts: "split_str CHR '' '' (''*/7 *'' @ [CHR 0x09] @ ''* * * *'')
      = [''*/7'', ''*'' @ [CHR 0x09] @ ''*'', ''*'', ''*'', ''*'']"
    by (simp add: split_str_def)
  have f: "formatCronSchedule (''*/7 *'' @ [CHR 0x09] @ ''* * * *'') = ''Every 7 minutes''"
    using format_interval_branch [OF nc] parts
    by (simp add: startsWith_def interval_phrase_def substring_def)
  from nc w f show ?thesis by simp
qed

text \<open>
  C8, amended. For every expression that is not one of the seven common patterns,
  \<open>formatCronSchedule\<close> returns the expression unchanged whenever splitting it on the
  space character does not give exactly five parts, and also whenever the first part does
  not start with \<^verbatim>\<open>*/\<close> and the first two parts are not both made of digits.
\<close>

theorem passthrough_unrecognized:
  assumes "x \<notin> set (map fst common_patterns)"
  shows "(length (split_str CHR '' '' x) \<noteq> 5 \<longrightarrow> formatCronSchedule x = x)
    \<and> (\<not> startsWith (split_str CHR '' '' x ! 0) ''*/''
        \<and> \<not> (match_digits (split_str CHR '' '' x ! 0) \<and> match_digits (split_str CHR '' '' x ! 1))
        \<longrightarrow> formatCronSchedule x = x)"
  using assms by (simp add: formatCronSchedule_def not_common Let_def)

text \<open>
  The theorem at three expressions: three parts; six parts, one of them empty; five parts
  that match neither rule.
\<close>

theorem passthrough_unrecognized_witness:
  "formatCronSchedule ''not a cron'' = ''not a cron''
   \<and> formatCronSchedule ''*/7  * * * *'' = ''*/7  * * * *''
   \<and> formatCronSchedule ''15 * * * 1-5'' = ''15 * * * 1-5''"
proof -
  have a: "formatCronSchedule ''not a cron'' = ''not a cron''"
    using passthrough_unrecognized [of "''not a cron''"]
    by (simp add: common_patterns_def split_str_def)
  have b: "formatCronSchedule ''*/7  * * * *'' = ''*/7  * * * *''"
    using passthrough_unrecognized [of "''*/7  * * * *''"]
    by (simp add: common_patterns_def split_str_def)
  have c: "formatCronSchedule ''15 * * * 1-5'' = ''15 * * * 1-5''"
    using passthrough_unrecognized [of "''15 * * * 1-5''"]
    by (simp add: common_patterns_def split_str_def startsWith_def match_digits_def is_digit_def)
  from a b c show ?thesis by simp
qed

subsection \<open>The badge\<close>

text \<open>
  The three trigger types have their classes, and a type that is neither one of the three
  nor the name of a member of \<^verbatim>\<open>Object.prototype\<close> has the default class.
\<close>

lemma getBadgeClass_known:
  "getBadgeClass ''timer'' = ClassName ''bg-primary''
   \<and> getBadgeClass ''http'' = ClassName ''bg-success''
   \<and> getBadgeClass ''unity_table'' = ClassName ''bg-warning text-dark''"
  by (simp add: getBadgeClass_def classes_def)

lemma getBadgeClass_default:
  assumes "t \<notin> set (map fst classes)" "t \<notin> set object_prototype_names"
  shows "getBadgeClass t = ClassName ''bg-secondary''"
proof -
  from assms(1) have "map_of classes t = None" by (simp add: map_of_eq_None_iff)
  with assms(2) show ?thesis by (simp add: getBadgeClass_def)
qed

text \<open>
  C9. The source does not return the default class for every unrecognized trigger type:
  for the type \<^verbatim>\<open>constructor\<close>, which is none of the three, the property read finds the
  member inherited from \<^verbatim>\<open>Object.prototype\<close> and \<open>getBadgeClass\<close> returns it.
\<close>

theorem getBadgeClass_inherited_name:
  "''constructor'' \<notin> set (map fst classes)
   \<and> getBadgeClass ''constructor'' = PrototypeMember ''constructor''
   \<and> getBadgeClass ''constructor'' \<noteq> ClassName ''bg-secondary''"
  by (simp add: getBadgeClass_def classes_def object_prototype_names_def)

section \<open>Properties of the ConnectionManager\<close>

subsection \<open>One live socket\<close>

text \<open>
  Where every socket but one is closing or closed, at most one socket is connecting or
  open; the invariant holds at the start and every event keeps it.
\<close>

lemma at_most_one_live:
  assumes "\<forall>j < length xs. j \<noteq> i \<longrightarrow> xs ! j = CLOSING \<or> xs ! j = CLOSED"
  shows "length (live xs) \<le> 1"
  using assms
proof (induction xs arbitrary: i)
  case Nil
  then show ?case by (simp add: live_def)
next
  case (Cons x xs)
  show ?case
  proof (cases i)
    case 0
    have "\<forall>j < length xs. xs ! j = CLOSING \<or> xs ! j = CLOSED"
    proof (intro allI impI)
      fix j assume "j < length xs"
      with Cons.prems 0 have "(x # xs) ! Suc j = CLOSING \<or> (x # xs) ! Suc j = CLOSED"
        by (metis Suc_less_eq length_Cons nat.distinct(1))
      then show "xs ! j = CLOSING \<or> xs ! j = CLOSED" by simp
    qed
    then have "\<forall>r \<in> set xs. r = CLOSING \<or> r = CLOSED"
      by (auto simp: in_set_conv_nth)
    then have "live xs = []"
      by (auto simp: live_def filter_empty_conv)
    then show ?thesis by (simp add: live_def)
  next
    case (Suc k)
    with Cons.prems have x: "x = CLOSING \<or> x = CLOSED"
      by (metis length_Cons nat.distinct(1) nth_Cons_0 zero_less_Suc)
    have "\<forall>j < length xs. j \<noteq> k \<longrightarrow> xs ! j = CLOSING \<or> xs ! j = CLOSED"
    proof (intro allI impI)
      fix j assume "j < length xs" "j \<noteq> k"
      with Cons.prems Suc have "(x # xs) ! Suc j = CLOSING \<or> (x # xs) ! Suc j = CLOSED"
        by (metis Suc_less_eq length_Cons nat.inject)
      then show "xs ! j = CLOSING \<or> xs ! j = CLOSED" by simp
    qed
    then have "length (live xs) \<le> 1" by (rule Cons.IH)
    with x show ?thesis by (auto simp: live_def)
  qed
qed

lemma others_closed_live:
  assumes "others_closed s" shows "length (live (sockets s)) \<le> 1"
proof (cases "ws s")
  case None
  with assms have "\<forall>j < length (sockets s). j \<noteq> 0 \<longrightarrow> sockets s ! j = CLOSING \<or> sockets s ! j = CLOSED"
    by (simp add: others_closed_def)
  then show ?thesis by (rule at_most_one_live)
next
  case (Some i)
  with assms have "\<forall>j < length (sockets s). j \<noteq> i \<longrightarrow> sockets s ! j = CLOSING \<or> sockets s ! j = CLOSED"
    by (simp add: others_closed_def)
  then show ?thesis by (rule at_most_one_live)
qed

lemma others_closed_initial: "others_closed initial"
  by (simp add: others_closed_def initial_def)

lemma others_closed_connect:
  assumes "others_closed s" shows "others_closed (connect s)"
proof (cases "readyState_of s = Some OPEN \<or> readyState_of s = Some CONNECTING \<or> isConnecting s")
  case True
  then have "connect s = s" by (simp add: connect_def)
  with assms show ?thesis by simp
next
  case False
  then have c: "connect s = s\<lparr>isConnecting := True, ws := Some (length (sockets s)),
      sockets := sockets s @ [CONNECTING]\<rparr>"
    by (simp add: connect_def)
  have cur: "sockets s ! i = CLOSING \<or> sockets s ! i = CLOSED" if "ws s = Some i" for i
  proof -
    from assms that have "i < length (sockets s)" by (simp add: others_closed_def)
    with that False have "sockets s ! i \<noteq> OPEN" "sockets s ! i \<noteq> CONNECTING"
      by (simp_all add: readyState_of_def)
    then show ?thesis by (cases "sockets s ! i") simp_all
  qed
  have old: "sockets s ! j = CLOSING \<or> sockets s ! j = CLOSED" if "j < length (sockets s)" for j
  proof (cases "ws s = Some j")
    case True then show ?thesis by (rule cur)
  next
    case False with assms that show ?thesis by (simp add: others_closed_def)
  qed
  show ?thesis
    unfolding c others_closed_def
    by (auto simp: nth_append old)
qed

lemma others_closed_disconnect:
  assumes "others_closed s" shows "others_closed (disconnect s)"
  using assms
  by (auto simp: others_closed_def disconnect_def close_socket_def nth_list_update
      split: option.splits)

lemma others_closed_step:
  assumes "others_closed s" "step thr e s = Some s'"
  shows "others_closed s'"
proof (cases e)
  case Connect
  with assms others_closed_connect show ?thesis by auto
next
  case Disconnect
  with assms others_closed_disconnect show ?thesis by auto
next
  case (Register h)
  with assms show ?thesis by (auto simp: others_closed_def onMessage_def)
next
  case (Dispose h)
  with assms show ?thesis by (auto simp: others_closed_def removeMessageHandler_def)
next
  case (Open i)
  with assms(2) have i: "i < length (sockets s)" "sockets s ! i = CONNECTING"
    and s': "s' = onopen (s\<lparr>sockets := (sockets s)[i := OPEN]\<rparr>)"
    by (auto split: if_splits)
  from assms(1) i have "ws s = Some i" by (auto simp: others_closed_def)
  with assms(1) show ?thesis
    unfolding s' by (auto simp: others_closed_def onopen_def nth_list_update)
next
  case (Message i m)
  with assms show ?thesis by (auto simp: others_closed_def onmessage_def split: if_splits)
next
  case (Error i)
  with assms show ?thesis by (auto simp: others_closed_def onerror_def split: if_splits)
next
  case (Close i)
  with assms show ?thesis
    by (auto simp: others_closed_def onclose_def nth_list_update split: if_splits)
next
  case (Elapse d)
  with assms show ?thesis by (auto simp: others_closed_def)
next
  case Timeout
  with assms(2) obtain t ts where t: "timers s = t # ts" and s': "s' = connect (s\<lparr>timers := ts\<rparr>)"
    by (auto split: list.splits if_splits)
  from assms(1) have "others_closed (s\<lparr>timers := ts\<rparr>)" by (simp add: others_closed_def)
  then show ?thesis unfolding s' by (rule others_closed_connect)
qed

lemma others_closed_run:
  assumes "others_closed s" "run thr evs s = Some s'"
  shows "others_closed s'"
  using assms
proof (induction evs arbitrary: s)
  case Nil
  then show ?case by simp
next
  case (Cons e evs)
  then obtain s1 where s1: "step thr e s = Some s1" and r: "run thr evs s1 = Some s'"
    by (auto split: option.splits)
  from Cons.prems(1) s1 have "others_closed s1" by (rule others_closed_step)
  then show ?case using r by (rule Cons.IH)
qed

lemma connect_guarded:
  "readyState_of s = Some CONNECTING \<or> readyState_of s = Some OPEN \<Longrightarrow> connect s = s"
  by (auto simp: connect_def)

text \<open>
  C2. After every sequence of calls of \<^verbatim>\<open>connect()\<close>, \<^verbatim>\<open>disconnect()\<close>,
  registrations, and open, message, error, close and timeout events, at most one socket
  is connecting or open. The sequence is arbitrary, so this holds at every point of it.
  And \<^verbatim>\<open>connect()\<close>, called while the socket of the service is connecting or open,
  changes nothing: no socket is constructed and no field is written.
\<close>

theorem single_live_socket:
  assumes "run thr evs initial = Some s"
  shows "length (live (sockets s)) \<le> 1
    \<and> ((readyState_of s = Some CONNECTING \<or> readyState_of s = Some OPEN)
          \<longrightarrow> connect s = s \<and> step thr Connect s = Some s)"
proof -
  from others_closed_initial assms have "others_closed s" by (rule others_closed_run)
  then have "length (live (sockets s)) \<le> 1" by (rule others_closed_live)
  then show ?thesis by (simp add: connect_guarded)
qed

text \<open>
  The theorem at a run in which a second socket is constructed while the first one is
  still closing.
\<close>

theorem single_live_socket_witness:
  "run never_throws
      [Connect, Connect, Open 0, Connect, Disconnect, Connect, Close 0, Elapse 5000, Timeout, Connect]
      initial
    = Some \<lparr>ws = Some 1, messageHandlers = [], isConnecting = False,
        sockets = [CLOSED, CONNECTING], timers = [], clock = 5000, calls = []\<rparr>
   \<and> length (live [CLOSED, CONNECTING]) \<le> 1
   \<and> connect \<lparr>ws = Some 1, messageHandlers = [], isConnecting = False,
        sockets = [CLOSED, CONNECTING], timers = [], clock = 5000, calls = []\<rparr>
      = \<lparr>ws = Some 1, messageHandlers = [], isConnecting = False,
        sockets = [CLOSED, CONNECTING], timers = [], clock = 5000, calls = []\<rparr>"
proof -
  have r: "run never_throws
      [Connect, Connect, Open 0, Connect, Disconnect, Connect, Close 0, Elapse 5000, Timeout, Connect]
      initial
    = Some \<lparr>ws = Some 1, messageHandlers = [], isConnecting = False,
        sockets = [CLOSED, CONNECTING], timers = [], clock = 5000, calls = []\<rparr>"
    by (simp add: initial_def connect_def readyState_of_def disconnect_def close_socket_def
        onopen_def onclose_def)
  from single_live_socket [OF r] r show ?thesis
    by (simp add: readyState_of_def)
qed

subsection \<open>Reconnecting\<close>

text \<open>
  C3. The browser can fire \<^verbatim>\<open>close\<close> on every socket that is not closed; every
  \<^verbatim>\<open>close\<close> event leaves the socket closed and sets exactly one timeout, due 5000
  milliseconds later; an \<^verbatim>\<open>error\<close> event sets none, so a close after an error sets
  one as well. \<^verbatim>\<open>disconnect()\<close> closes the transport: the socket of the service, if it
  is connecting or open, is closing afterwards; a socket that is closing or closed, or no
  socket, leaves the state as it is; no field but the sockets changes, so no timeout is
  set and none is cancelled. The \<^verbatim>\<open>close\<close> event of the socket that was disconnected
  can still fire, and it sets the timeout as any other. A timeout runs only when it is
  due, and what it runs is \<^verbatim>\<open>connect()\<close>.
\<close>

theorem reconnect_after_every_close:
  "(i < length (sockets s) \<and> sockets s ! i \<noteq> CLOSED \<longrightarrow> step thr (Close i) s \<noteq> None)
   \<and> (step thr (Close i) s = Some s' \<longrightarrow>
        timers s' = timers s @ [clock s + 5000] \<and> sockets s' = (sockets s)[i := CLOSED])
   \<and> (step thr (Error i) s = Some s' \<longrightarrow> timers s' = timers s)
   \<and> step thr Disconnect s = Some (disconnect s)
   \<and> (ws s = None \<longrightarrow> disconnect s = s)
   \<and> (ws s = Some i \<and> i < length (sockets s) \<and> (sockets s ! i = CONNECTING \<or> sockets s ! i = OPEN)
        \<longrightarrow> sockets (disconnect s) = (sockets s)[i := CLOSING])
   \<and> (ws s = Some i \<and> (sockets s ! i = CLOSING \<or> sockets s ! i = CLOSED)
        \<longrightarrow> disconnect s = s)
   \<and> (disconnect s)\<lparr>sockets := sockets s\<rparr> = s
   \<and> timers (disconnect s) = timers s \<and> clock (disconnect s) = clock s
   \<and> (ws s = Some i \<and> i < length (sockets s) \<and> sockets s ! i \<noteq> CLOSED \<longrightarrow>
        sockets (disconnect s) ! i = CLOSING
        \<and> step thr (Close i) (disconnect s) \<noteq> None
        \<and> timers (the (step thr (Close i) (disconnect s))) = timers s @ [clock s + 5000]
        \<and> sockets (the (step thr (Close i) (disconnect s))) ! i = CLOSED)
   \<and> (step thr Timeout s = Some s' \<longrightarrow>
        timers s \<noteq> [] \<and> hd (timers s) \<le> clock s \<and> s' = connect (s\<lparr>timers := tl (timers s)\<rparr>))"
proof -
  have a: "i < length (sockets s) \<and> sockets s ! i \<noteq> CLOSED \<longrightarrow> step thr (Close i) s \<noteq> None"
    by simp
  have b: "step thr (Close i) s = Some s' \<longrightarrow>
        timers s' = timers s @ [clock s + 5000] \<and> sockets s' = (sockets s)[i := CLOSED]"
    by (auto simp: onclose_def split: if_splits)
  have c: "step thr (Error i) s = Some s' \<longrightarrow> timers s' = timers s"
    by (auto simp: onerror_def split: if_splits)
  have d: "step thr Disconnect s = Some (disconnect s)
      \<and> (ws s = None \<longrightarrow> disconnect s = s)
      \<and> (disconnect s)\<lparr>sockets := sockets s\<rparr> = s
      \<and> timers (disconnect s) = timers s \<and> clock (disconnect s) = clock s"
    by (simp add: disconnect_def split: option.splits)
  have e: "ws s = Some i \<and> i < length (sockets s) \<and> (sockets s ! i = CONNECTING \<or> sockets s ! i = OPEN)
        \<longrightarrow> sockets (disconnect s) = (sockets s)[i := CLOSING]"
    by (simp add: disconnect_def close_socket_def)
  have f: "ws s = Some i \<and> (sockets s ! i = CLOSING \<or> sockets s ! i = CLOSED)
        \<longrightarrow> disconnect s = s"
    by (auto simp: disconnect_def close_socket_def)
  have g: "ws s = Some i \<and> i < length (sockets s) \<and> sockets s ! i \<noteq> CLOSED \<longrightarrow>
        sockets (disconnect s) ! i = CLOSING
        \<and> step thr (Close i) (disconnect s) \<noteq> None
        \<and> timers (the (step thr (Close i) (disconnect s))) = timers s @ [clock s + 5000]
        \<and> sockets (the (step thr (Close i) (disconnect s))) ! i = CLOSED"
  proof (cases "sockets s ! i")
    case CLOSED then show ?thesis by simp
  qed (auto simp: disconnect_def close_socket_def onclose_def)
  have h: "step thr Timeout s = Some s' \<longrightarrow>
        timers s \<noteq> [] \<and> hd (timers s) \<le> clock s \<and> s' = connect (s\<lparr>timers := tl (timers s)\<rparr>)"
    by (auto split: list.splits if_splits)
  from a b c d e f g h show ?thesis by blast
qed

text \<open>
  The theorem at an open socket, at time 1200: closed by the server, the timeout is due at
  6200; after \<^verbatim>\<open>disconnect()\<close> the socket is closing, no timeout is set yet, and its
  \<^verbatim>\<open>close\<close> event sets the timeout due at 6200.
\<close>

theorem reconnect_after_every_close_witness:
  "step never_throws (Close 0)
      \<lparr>ws = Some 0, messageHandlers = [], isConnecting = False,
        sockets = [OPEN], timers = [], clock = 1200, calls = []\<rparr>
    = Some \<lparr>ws = Some 0, messageHandlers = [], isConnecting = False,
        sockets = [CLOSED], timers = [6200], clock = 1200, calls = []\<rparr>
   \<and> sockets (disconnect \<lparr>ws = Some 0, messageHandlers = [], isConnecting = False,
          sockets = [OPEN], timers = [], clock = 1200, calls = []\<rparr>) = [CLOSING]
   \<and> timers (disconnect \<lparr>ws = Some 0, messageHandlers = [], isConnecting = False,
          sockets = [OPEN], timers = [], clock = 1200, calls = []\<rparr>) = []
   \<and> timers (the (step never_throws (Close 0)
        (disconnect \<lparr>ws = Some 0, messageHandlers = [], isConnecting = False,
          sockets = [OPEN], timers = [], clock = 1200, calls = []\<rparr>))) = [6200]
   \<and> sockets (the (step never_throws (Close 0)
        (disconnect \<lparr>ws = Some 0, messageHandlers = [], isConnecting = False,
          sockets = [OPEN], timers = [], clock = 1200, calls = []\<rparr>))) ! 0 = CLOSED"
proof -
  define S where "S = \<lparr>ws = Some 0, messageHandlers = [], isConnecting = False,
        sockets = [OPEN], timers = [], clock = 1200, calls = []\<rparr>"
  define S' where "S' = \<lparr>ws = Some 0, messageHandlers = [], isConnecting = False,
        sockets = [CLOSED], timers = [6200], clock = 1200, calls = []\<rparr>"
  have c: "step never_throws (Close 0) S = Some S'"
    by (simp add: S_def S'_def onclose_def)
  have p: "ws S = Some 0" "(0::nat) < length (sockets S)" "sockets S ! 0 = OPEN"
    "sockets S ! 0 \<noteq> CLOSED" "(sockets S)[0 := CLOSING] = [CLOSING]"
    "timers S = []" "clock S + 5000 = 6200"
    by (simp_all add: S_def)
  note T = reconnect_after_every_close [where i = 0 and thr = never_throws and s = S and s' = S']
  from T p have a: "sockets (disconnect S) = [CLOSING]" by metis
  from T p have b: "timers (disconnect S) = []" by metis
  from T p have d: "timers (the (step never_throws (Close 0) (disconnect S))) = [6200]"
    by (metis append_Nil)
  from T p have e: "sockets (the (step never_throws (Close 0) (disconnect S))) ! 0 = CLOSED"
    by metis
  from c a b d e show ?thesis unfolding S_def S'_def by simp
qed

subsection \<open>The disposer\<close>

text \<open>
  C5. The disposer that \<^verbatim>\<open>onMessage(h)\<close> returns removes \<open>h\<close> from the registered
  handlers and nothing else: the set of handlers loses exactly \<open>h\<close>, the other handlers
  stay as they were and in their order, and no other field changes. Calling it a second
  time, or when \<open>h\<close> is not registered, changes nothing.
\<close>

theorem disposer_removes_exactly:
  "snd (onMessage h s0) = removeMessageHandler h
   \<and> messageHandlers (fst (onMessage h s0)) = messageHandlers s0 @ [h]
   \<and> set (messageHandlers (removeMessageHandler h s)) = set (messageHandlers s) - {h}
   \<and> filter (\<lambda>x. x \<noteq> h) (messageHandlers (removeMessageHandler h s))
        = filter (\<lambda>x. x \<noteq> h) (messageHandlers s)
   \<and> removeMessageHandler h (removeMessageHandler h s) = removeMessageHandler h s
   \<and> (h \<notin> set (messageHandlers s) \<longrightarrow> removeMessageHandler h s = s)
   \<and> (removeMessageHandler h s)\<lparr>messageHandlers := messageHandlers s\<rparr> = s"
proof -
  have "h \<notin> set hs \<Longrightarrow> filter (\<lambda>x. x \<noteq> h) hs = hs" for hs :: "handler list"
    by (induction hs) auto
  then have "h \<notin> set (messageHandlers s) \<longrightarrow> removeMessageHandler h s = s"
    by (simp add: removeMessageHandler_def)
  moreover have "set (messageHandlers (removeMessageHandler h s)) = set (messageHandlers s) - {h}"
    by (auto simp: removeMessageHandler_def)
  ultimately show ?thesis
    by (simp add: onMessage_def removeMessageHandler_def)
qed

text \<open>
  The theorem at the handlers 1, 2, 1, 3: the disposer of 1 leaves 2 and 3, and the
  disposer of 5 leaves the service as it is.
\<close>

theorem disposer_removes_exactly_witness:
  "messageHandlers (snd (onMessage 1 initial)
      \<lparr>ws = None, messageHandlers = [1, 2, 1, 3], isConnecting = False,
        sockets = [], timers = [], clock = 0, calls = []\<rparr>) = [2, 3]
   \<and> set (messageHandlers (removeMessageHandler 1
      \<lparr>ws = None, messageHandlers = [1, 2, 1, 3], isConnecting = False,
        sockets = [], timers = [], clock = 0, calls = []\<rparr>)) = {2, 3}
   \<and> removeMessageHandler 5
      \<lparr>ws = None, messageHandlers = [1, 2, 1, 3], isConnecting = False,
        sockets = [], timers = [], clock = 0, calls = []\<rparr>
      = \<lparr>ws = None, messageHandlers = [1, 2, 1, 3], isConnecting = False,
        sockets = [], timers = [], clock = 0, calls = []\<rparr>"
proof -
  have a: "set (messageHandlers (removeMessageHandler 1
      \<lparr>ws = None, messageHandlers = [1, 2, 1, 3], isConnecting = False,
        sockets = [], timers = [], clock = 0, calls = []\<rparr>)) = {2, 3}"
    using disposer_removes_exactly [where h = 1 and s = "\<lparr>ws = None, messageHandlers = [1, 2, 1, 3],
        isConnecting = False, sockets = [], timers = [], clock = 0, calls = []\<rparr>"]
    by auto
  have b: "removeMessageHandler 5
      \<lparr>ws = None, messageHandlers = [1, 2, 1, 3], isConnecting = False,
        sockets = [], timers = [], clock = 0, calls = []\<rparr>
      = \<lparr>ws = None, messageHandlers = [1, 2, 1, 3], isConnecting = False,
        sockets = [], timers = [], clock = 0, calls = []\<rparr>"
    using disposer_removes_exactly [where h = 5 and s = "\<lparr>ws = None, messageHandlers = [1, 2, 1, 3],
        isConnecting = False, sockets = [], timers = [], clock = 0, calls = []\<rparr>"]
    by simp
  have c: "messageHandlers (snd (onMessage 1 initial)
      \<lparr>ws = None, messageHandlers = [1, 2, 1, 3], isConnecting = False,
        sockets = [], timers = [], clock = 0, calls = []\<rparr>) = [2, 3]"
    using disposer_removes_exactly [where h = 1 and ?s0.0 = initial]
    by (simp add: removeMessageHandler_def)
  from a b c show ?thesis by simp
qed

subsection \<open>Dispatch\<close>

text \<open>
  C1, as the specification states it, fails: with the handlers 1 and 2 registered in this
  order and handler 1 throwing, a message reaches handler 1 only.
\<close>

theorem dispatch_aborted_by_throw:
  "faulty [] 1 ''tick''
   \<and> run faulty [Register 1, Register 2, Connect, Open 0, Message 0 ''tick''] initial
      = Some \<lparr>ws = Some 0, messageHandlers = [1, 2], isConnecting = False,
          sockets = [OPEN], timers = [], clock = 0, calls = [(1, ''tick'')]\<rparr>
   \<and> (2, ''tick'') \<notin> set (calls (the
        (run faulty [Register 1, Register 2, Connect, Open 0, Message 0 ''tick''] initial)))"
  by (simp add: faulty_def initial_def onMessage_def connect_def readyState_of_def onopen_def
      onmessage_def)

lemma forEach_quiet:
  "quiet thr cs hs m \<Longrightarrow>
     forEach thr (hs @ rest) m cs = forEach thr rest m (cs @ map (\<lambda>x. (x, m)) hs)"
  by (induction hs arbitrary: cs) auto

text \<open>
  C1, amended. When a handler throws during the dispatch of a message, and the handlers
  before it did not, the dispatch ends there: the message has been delivered to the
  handlers before it and to the handler that throws, in their order, and to no handler
  after it.
\<close>

theorem dispatch_stops_at_first_throw:
  assumes "quiet thr cs pre m" and "thr (cs @ map (\<lambda>x. (x, m)) pre) h m"
  shows "forEach thr (pre @ h # post) m cs = cs @ map (\<lambda>x. (x, m)) (pre @ [h])"
  using assms by (simp add: forEach_quiet)

text \<open>
  The theorem at the handlers 2, 3, 1, 4, of which 1 throws.
\<close>

theorem dispatch_stops_at_first_throw_witness:
  "forEach faulty [2, 3, 1, 4] ''tick'' [] = [(2, ''tick''), (3, ''tick''), (1, ''tick'')]"
  using dispatch_stops_at_first_throw [of faulty "[]" "[2, 3]" "''tick''" 1 "[4]"]
  by (simp add: faulty_def)

lemma forEach_no_throw:
  assumes "\<forall>cs h m. \<not> thr cs h m"
  shows "forEach thr hs m cs = cs @ map (\<lambda>h. (h, m)) hs"
  using assms by (induction hs arbitrary: cs) auto

lemma receive_no_throw:
  assumes "\<forall>cs h m. \<not> thr cs h m"
  shows "calls (receive thr ms s)
      = calls s @ concat (map (\<lambda>m. map (\<lambda>h. (h, m)) (messageHandlers s)) ms)
    \<and> messageHandlers (receive thr ms s) = messageHandlers s"
  unfolding receive_def
  by (induction ms arbitrary: s) (simp_all add: onmessage_def forEach_no_throw [OF assms])

lemma count_calls: "count_list (map (\<lambda>h. (h, m)) hs) (k, m) = count_list hs k"
  by (induction hs) auto

lemma count_distinct: "distinct hs \<Longrightarrow> k \<in> set hs \<Longrightarrow> count_list hs k = 1"
  by (induction hs) auto

lemma filter_others:
  "filter (\<lambda>c. fst c \<noteq> h) (concat (map (\<lambda>m. map (\<lambda>x. (x, m)) hs) ms))
    = concat (map (\<lambda>m. map (\<lambda>x. (x, m)) (filter (\<lambda>x. x \<noteq> h) hs)) ms)"
  by (induction ms) (simp_all add: filter_map comp_def)

text \<open>
  C4, as the specification states it, fails twice: a handler registered twice is called
  twice for one message, and a handler registered after one that throws is not called
  at all.
\<close>

theorem delivery_count_differs:
  "run never_throws [Register 7, Register 7, Connect, Open 0, Message 0 ''tick''] initial
      = Some \<lparr>ws = Some 0, messageHandlers = [7, 7], isConnecting = False,
          sockets = [OPEN], timers = [], clock = 0, calls = [(7, ''tick''), (7, ''tick'')]\<rparr>
   \<and> count_list (calls (the
        (run never_throws [Register 7, Register 7, Connect, Open 0, Message 0 ''tick''] initial)))
        (7, ''tick'') = 2
   \<and> run faulty [Register 1, Register 2, Connect, Open 0, Message 0 ''a'', Message 0 ''b''] initial
      = Some \<lparr>ws = Some 0, messageHandlers = [1, 2], isConnecting = False,
          sockets = [OPEN], timers = [], clock = 0, calls = [(1, ''a''), (1, ''b'')]\<rparr>
   \<and> count_list (calls (the
        (run faulty [Register 1, Register 2, Connect, Open 0, Message 0 ''a'', Message 0 ''b''] initial)))
        (2, ''a'') = 0"
  by (simp add: never_throws_def faulty_def initial_def onMessage_def connect_def readyState_of_def
      onopen_def onmessage_def)

text \<open>
  C4, amended. When no handler throws, the messages of a stream are delivered one after
  the other, in the order the transport produced them, each to every registered handler
  in the order of registration, once for each registration, so exactly once to a handler
  of a list without repetition. Removing one handler before a stream leaves the calls of
  the other handlers as they are with the handler registered.
\<close>

theorem delivery_in_order:
  assumes "\<forall>cs h m. \<not> thr cs h m"
  shows "calls (receive thr ms s)
      = calls s @ concat (map (\<lambda>m. map (\<lambda>h. (h, m)) (messageHandlers s)) ms)
    \<and> (distinct (messageHandlers s) \<and> k \<in> set (messageHandlers s) \<longrightarrow>
          count_list (forEach thr (messageHandlers s) m []) (k, m) = 1)
    \<and> filter (\<lambda>c. fst c \<noteq> h) (calls (receive thr ms (removeMessageHandler h s)))
        = filter (\<lambda>c. fst c \<noteq> h) (calls (receive thr ms s))"
proof -
  have a: "calls (receive thr ms s)
      = calls s @ concat (map (\<lambda>m. map (\<lambda>h. (h, m)) (messageHandlers s)) ms)"
    using receive_no_throw [OF assms] by simp
  have b: "distinct (messageHandlers s) \<and> k \<in> set (messageHandlers s) \<longrightarrow>
          count_list (forEach thr (messageHandlers s) m []) (k, m) = 1"
    by (simp add: forEach_no_throw [OF assms] count_calls count_distinct)
  have "calls (receive thr ms (removeMessageHandler h s))
      = calls s @ concat (map (\<lambda>m. map (\<lambda>x. (x, m)) (filter (\<lambda>x. x \<noteq> h) (messageHandlers s))) ms)"
    using receive_no_throw [OF assms, of ms "removeMessageHandler h s"]
    by (simp add: removeMessageHandler_def)
  then have c: "filter (\<lambda>c. fst c \<noteq> h) (calls (receive thr ms (removeMessageHandler h s)))
        = filter (\<lambda>c. fst c \<noteq> h) (calls (receive thr ms s))"
    by (simp add: a filter_others)
  from a b c show ?thesis by simp
qed

text \<open>
  The theorem at the handlers 1, 2, 3 and the messages a, b, with and without handler 2.
\<close>

theorem delivery_in_order_witness:
  "calls (receive never_throws [''a'', ''b'']
      \<lparr>ws = Some 0, messageHandlers = [1, 2, 3], isConnecting = False,
        sockets = [OPEN], timers = [], clock = 0, calls = []\<rparr>)
     = [(1, ''a''), (2, ''a''), (3, ''a''), (1, ''b''), (2, ''b''), (3, ''b'')]
   \<and> filter (\<lambda>c. fst c \<noteq> 2) (calls (receive never_throws [''a'', ''b'']
      (removeMessageHandler 2 \<lparr>ws = Some 0, messageHandlers = [1, 2, 3], isConnecting = False,
        sockets = [OPEN], timers = [], clock = 0, calls = []\<rparr>)))
     = [(1, ''a''), (3, ''a''), (1, ''b''), (3, ''b'')]
   \<and> count_list (forEach never_throws [1, 2, 3] ''a'' []) (3, ''a'') = 1"
proof -
  have n: "\<forall>cs h m. \<not> never_throws cs h m" by (simp add: never_throws_def)
  from delivery_in_order [OF n, where s = "\<lparr>ws = Some 0, messageHandlers = [1, 2, 3],
        isConnecting = False, sockets = [OPEN], timers = [], clock = 0, calls = []\<rparr>"
      and ms = "[''a'', ''b'']" and h = 2 and k = 3 and m = "''a''"]
  show ?thesis by simp
qed

end
